theory Spec2Isabelle
  imports Main "HOL-Library.Sublist" "HOL-Library.Word"
begin

section \<open>Python values used by \<open>repo_management/files.py\<close>\<close>

text \<open>
  Member names are Python \<open>str\<close> values, modelled as \<open>string\<close>. The text of a member
  is a \<open>str\<close> whose UTF-8 length matters, so it is kept as the list of its code points
  (\<open>unicode\<close>); bytes are \<open>8 word\<close>. The exceptions that the modelled operations can
  raise are the constructors of \<open>error\<close>; an operation that can raise returns
  \<open>error + 'a\<close>, with \<open>Inl\<close> for the exception.
\<close>

type_synonym unicode = "nat list"

type_synonym byte = "8 word"

datatype error =
    AttributeError
  | KeyError
  | UnicodeDecodeError
  | UnicodeEncodeError
  | TemplateError

definition newline :: char where
  "newline = CHR 0x0A"

subsection \<open>The regular expressions of the module\<close>

text \<open>
  Every pattern searched for in \<open>files.py\<close> has the shape \<open>(lit1|...|litn)$\<close> with
  non-empty literals: \<open>(/desc|/files)$\<close>, \<open>(/desc)$\<close> and \<open>(/files)$\<close>. Such a pattern is
  given by the list of its literals. Without the \<open>MULTILINE\<close> flag, Python's \<open>$\<close> matches
  at the end of the string and also just before a newline that is the last character of
  the string; \<open>dollar\<close> is that test on the rest of the subject after the literal.
\<close>

definition dollar :: "string \<Rightarrow> bool" where
  "dollar rest \<longleftrightarrow> rest = [] \<or> rest = [newline]"

text \<open>
  \<open>match_alts alts s\<close>: try the alternatives in order at the start of \<open>s\<close>; the
  length of the first one that matches there.
\<close>

fun match_alts :: "string list \<Rightarrow> string \<Rightarrow> nat option" where
  "match_alts [] s = None"
| "match_alts (a # as) s =
     (if prefix a s \<and> dollar (drop (length a) s) then Some (length a)
      else match_alts as s)"

text \<open>\<open>re.search(pattern, s)\<close> as a truth value: is there a match at some position?\<close>

fun re_search :: "string list \<Rightarrow> string \<Rightarrow> bool" where
  "re_search alts [] = (match_alts alts [] \<noteq> None)"
| "re_search alts (c # cs) = (match_alts alts (c # cs) \<noteq> None \<or> re_search alts cs)"

text \<open>
  \<open>re.sub(pattern, "", s)\<close>: scanning from the left, every match is replaced by the
  empty string and the scan goes on after the match.
\<close>

fun re_sub :: "string list \<Rightarrow> string \<Rightarrow> string" where
  "re_sub alts [] = []"
| "re_sub alts (c # cs) =
     (case match_alts alts (c # cs) of
        None \<Rightarrow> c # re_sub alts cs
      | Some n \<Rightarrow> re_sub alts (drop (n - 1) cs))"

text \<open>
  \<open>re.split("(-)", s)\<close>: the pieces between the hyphens, with every hyphen kept as a
  token of its own (the pattern is a capturing group); a string with \<open>k\<close> hyphens gives
  \<open>2 * k + 1\<close> tokens, some of them possibly empty.
\<close>

fun re_split :: "string \<Rightarrow> string list" where
  "re_split [] = [[]]"
| "re_split (c # cs) =
     (if c = CHR ''-'' then [] # [c] # re_split cs
      else (case re_split cs of [] \<Rightarrow> [[c]] | t # ts \<Rightarrow> (c # t) # ts))"

text \<open>The slice \<open>xs[:-k]\<close> for \<open>k > 0\<close>: all but the last \<open>k\<close> items, nothing when there are at most \<open>k\<close>.\<close>

definition slice_to_minus :: "nat \<Rightarrow> 'a list \<Rightarrow> 'a list" where
  "slice_to_minus k xs = take (length xs - k) xs"

section \<open>The package name of a database member\<close>

text \<open>
  \<^verbatim>\<open>return "".join(re.split("(-)", re.sub("(/desc|/files)$", "", name))[:-4])\<close>

  The function has no \<open>raise\<close>, and none of its operations raises on a \<open>str\<close>: its
  result is always \<open>Inr\<close>.
\<close>

definition dirname_of :: "string \<Rightarrow> string" where
  "dirname_of name = re_sub [''/desc'', ''/files''] name"

definition extract_db_member_package_name :: "string \<Rightarrow> error + string" where
  "extract_db_member_package_name name =
     Inr (concat (slice_to_minus 4 (re_split (dirname_of name))))"

section \<open>Reading the members of a database\<close>

text \<open>
  The modules \<open>defaults\<close> and \<open>models\<close> are not among the sources. Of
  \<open>defaults.RepoDbMemberType\<close> the generator assigns three kinds, and it builds a
  \<open>models.RepoDbMemberData\<close> from a kind, a package name and a text.
\<close>

datatype RepoDbMemberType = UNKNOWN | DESC | FILES

record RepoDbMemberData =
  member_type :: RepoDbMemberType
  name :: string
  data :: unicode

text \<open>
  The \<open>tarfile.TarFile\<close> that is read belongs to Python's library. The generator uses two
  things of it: \<open>getnames()\<close>, the member names in the order of the archive, and for a name
  the expression \<^verbatim>\<open>db_file.extractfile(name).read()\<close> decoded as UTF-8, which is
  \<open>read_text\<close> here. It raises when \<open>extractfile\<close> returns \<open>None\<close> (a directory member:
  \<open>AttributeError\<close>), when a link cannot be followed (\<open>KeyError\<close>) and when the bytes are
  not UTF-8 (\<open>UnicodeDecodeError\<close>).
\<close>

record TarFile_read =
  getnames :: "string list"
  read_text :: "string \<Rightarrow> error + unicode"

text \<open>
  The three assignments to \<open>file_type\<close> in the loop body: \<open>UNKNOWN\<close> first, then the two
  independent \<open>if\<close>s, the later one winning.
\<close>

definition member_file_type :: "string \<Rightarrow> RepoDbMemberType" where
  "member_file_type nm =
     (let file_type = UNKNOWN;
          file_type = (if re_search [''/desc''] nm then DESC else file_type);
          file_type = (if re_search [''/files''] nm then FILES else file_type)
      in file_type)"

text \<open>
  The generator's loop over the retained names. The result is the list of the values
  yielded, and the exception that ended the iteration, if one did: the values yielded
  before it have already reached the consumer.
\<close>

fun yield_members :: "(string \<Rightarrow> error + unicode) \<Rightarrow> string list \<Rightarrow> RepoDbMemberData list \<times> error option" where
  "yield_members rd [] = ([], None)"
| "yield_members rd (nm # nms) =
     (case extract_db_member_package_name nm of
        Inl e \<Rightarrow> ([], Some e)
      | Inr pkg \<Rightarrow>
          (case rd nm of
             Inl e \<Rightarrow> ([], Some e)
           | Inr txt \<Rightarrow>
               (let (ys, e) = yield_members rd nms
                in (\<lparr>member_type = member_file_type nm, name = pkg, data = txt\<rparr> # ys, e))))"

text \<open>
  The parameter \<open>regex\<close> is used only in \<^verbatim>\<open>re.search(regex, name)\<close> as a truth value, so
  it is given as that test on names; \<open>default_regex\<close> is the default \<open>(/desc|/files)$\<close>.
\<close>

definition default_regex :: "string \<Rightarrow> bool" where
  "default_regex = re_search [''/desc'', ''/files'']"

definition db_file_member_as_model :: "TarFile_read \<Rightarrow> (string \<Rightarrow> bool) \<Rightarrow> RepoDbMemberData list \<times> error option" where
  "db_file_member_as_model db_file regex =
     yield_members (read_text db_file) (filter regex (getnames db_file))"

section \<open>Streaming a package base to a database\<close>

subsection \<open>UTF-8\<close>

text \<open>
  \<open>str.encode()\<close>: UTF-8, strict. A code point in the surrogate range raises
  \<open>UnicodeEncodeError\<close>. A \<open>str\<close> holds code points below \<open>0x110000\<close> only.
\<close>

definition utf8_char :: "nat \<Rightarrow> error + byte list" where
  "utf8_char cp =
     (if cp < 0x80 then Inr [of_nat cp]
      else if cp < 0x800 then Inr [of_nat (0xC0 + cp div 0x40), of_nat (0x80 + cp mod 0x40)]
      else if 0xD800 \<le> cp \<and> cp < 0xE000 then Inl UnicodeEncodeError
      else if cp < 0x10000 then
        Inr [of_nat (0xE0 + cp div 0x1000), of_nat (0x80 + cp div 0x40 mod 0x40),
             of_nat (0x80 + cp mod 0x40)]
      else
        Inr [of_nat (0xF0 + cp div 0x40000), of_nat (0x80 + cp div 0x1000 mod 0x40),
             of_nat (0x80 + cp div 0x40 mod 0x40), of_nat (0x80 + cp mod 0x40)])"

fun str_encode :: "unicode \<Rightarrow> error + byte list" where
  "str_encode [] = Inr []"
| "str_encode (cp # cps) =
     (case utf8_char cp of
        Inl e \<Rightarrow> Inl e
      | Inr bs \<Rightarrow> (case str_encode cps of Inl e \<Rightarrow> Inl e | Inr rest \<Rightarrow> Inr (bs @ rest)))"

subsection \<open>Tar headers and the archive written\<close>

datatype tar_type = REGTYPE | DIRTYPE

text \<open>
  The attributes of \<open>tarfile.TarInfo\<close> that the writer sets, with the constructor's
  defaults; the default mode is \<open>0o644\<close>, which is 420.
\<close>

record TarInfo =
  ti_name :: string
  ti_type :: tar_type
  ti_size :: nat
  ti_mtime :: int
  ti_uname :: string
  ti_gname :: string
  ti_mode :: int

definition TarInfo_new :: "string \<Rightarrow> TarInfo" where
  "TarInfo_new nm =
     \<lparr>ti_name = nm, ti_type = REGTYPE, ti_size = 0, ti_mtime = 0,
      ti_uname = '''', ti_gname = '''', ti_mode = 420\<rparr>"

text \<open>
  The archive written is the sequence of the calls \<open>db.addfile(tarinfo, fileobj)\<close>: the
  header and the bytes of the file object, \<open>None\<close> when the call has none.
\<close>

type_synonym TarFile = "(TarInfo \<times> byte list option) list"

definition addfile :: "TarFile \<Rightarrow> TarInfo \<Rightarrow> byte list option \<Rightarrow> TarFile" where
  "addfile db tarinfo fileobj = db @ [(tarinfo, fileobj)]"

text \<open>
  The name in the header written: \<open>TarInfo.get_info\<close> of the library appends \<open>/\<close> to
  the name of a directory that does not end in one.
\<close>

definition header_name :: "TarInfo \<Rightarrow> string" where
  "header_name ti =
     (if ti_type ti = DIRTYPE \<and> \<not> suffix ''/'' (ti_name ti) then ti_name ti @ ''/''
      else ti_name ti)"

subsection \<open>What the writer takes from the other modules\<close>

text \<open>
  The module \<open>defaults\<close> is not among the sources. Its constants are parameters of the
  writer: the user and group names, and the two modes, each given by the value that
  \<^verbatim>\<open>int(defaults.DB_DIR_MODE, base=8)\<close> and \<^verbatim>\<open>int(defaults.DB_FILE_MODE, base=8)\<close> have.
\<close>

record defaults =
  DB_USER :: string
  DB_GROUP :: string
  DB_DIR_MODE :: int
  DB_FILE_MODE :: int

text \<open>
  Modelled from the spec: \<open>defaults.RepoDbType\<close> is not among the sources. A database is
  of one of two kinds, desc-only or desc+files; the writer compares the kind with
  \<open>RepoDbType.FILES\<close> only.
\<close>

datatype RepoDbType = RepoDbType_DEFAULT | RepoDbType_FILES

text \<open>
  Modelled from the spec: \<open>models.OutputPackageBase\<close> and the models of its packages are
  not among the sources. A package group has a shared version string and an ordered
  collection of packages; a package has a name (its other fields are of no concern to the
  writer, which hands the model to the renderer) and a list of file paths.
  \<open>get_packages_as_models\<close> gives the pairs of desc and files model of the packages, in
  the order of the group.
\<close>

record desc_model =
  desc_name :: string

record files_model =
  files :: "string list"

record OutputPackageBase =
  version :: string
  packages :: "(desc_model \<times> files_model) list"

definition get_packages_as_models :: "OutputPackageBase \<Rightarrow> (desc_model \<times> files_model) list" where
  "get_packages_as_models model = packages model"

text \<open>
  \<open>convert.RepoDbFile\<close> is not among the sources either; its two rendering methods are
  parameters. Each writes a text to the stream it is given, or raises.
\<close>

record RepoDbFile =
  render_desc_template :: "desc_model \<Rightarrow> error + unicode"
  render_files_template :: "files_model \<Rightarrow> error + unicode"

subsection \<open>The writer\<close>

text \<open>
  The state that the writer changes: the archive, and the clock. \<open>time_time k\<close> is the
  value of \<^verbatim>\<open>int(time.time())\<close> at the \<open>k\<close>-th reading of the clock, and \<open>readings\<close> counts
  the readings made.
\<close>

record world =
  db :: TarFile
  readings :: nat

definition read_clock :: "(nat \<Rightarrow> int) \<Rightarrow> world \<Rightarrow> int \<times> world" where
  "read_clock time_time w = (time_time (readings w), w\<lparr>readings := Suc (readings w)\<rparr>)"

text \<open>Lines 207 to 213: the directory entry.\<close>

definition add_directory :: "defaults \<Rightarrow> (nat \<Rightarrow> int) \<Rightarrow> string \<Rightarrow> world \<Rightarrow> world" where
  "add_directory dflt time_time dirname w =
     (let directory = TarInfo_new dirname;
          directory = directory\<lparr>ti_type := DIRTYPE\<rparr>;
          (t, w) = read_clock time_time w;
          directory = directory\<lparr>ti_mtime := t\<rparr>;
          directory = directory\<lparr>ti_uname := DB_USER dflt\<rparr>;
          directory = directory\<lparr>ti_gname := DB_GROUP dflt\<rparr>;
          directory = directory\<lparr>ti_mode := DB_DIR_MODE dflt\<rparr>
      in w\<lparr>db := addfile (db w) directory None\<rparr>)"

text \<open>
  Lines 215 to 223, and again lines 225 to 233: render a text, encode it, and add a file
  entry of that size with these bytes. Rendering or encoding may raise; nothing is added
  then.
\<close>

definition add_rendered :: "defaults \<Rightarrow> (nat \<Rightarrow> int) \<Rightarrow> string \<Rightarrow> (error + unicode) \<Rightarrow> world \<Rightarrow> error option \<times> world" where
  "add_rendered dflt time_time path rendered w =
     (case rendered of
        Inl e \<Rightarrow> (Some e, w)
      | Inr content \<Rightarrow>
          (case str_encode content of
             Inl e \<Rightarrow> (Some e, w)
           | Inr bytes \<Rightarrow>
               (let file = TarInfo_new path;
                    file = file\<lparr>ti_size := length bytes\<rparr>;
                    (t, w) = read_clock time_time w;
                    file = file\<lparr>ti_mtime := t\<rparr>;
                    file = file\<lparr>ti_uname := DB_USER dflt\<rparr>;
                    file = file\<lparr>ti_gname := DB_GROUP dflt\<rparr>;
                    file = file\<lparr>ti_mode := DB_FILE_MODE dflt\<rparr>
                in (None, w\<lparr>db := addfile (db w) file (Some bytes)\<rparr>))))"

text \<open>The body of the loop, for one pair of models.\<close>

definition stream_package :: "defaults \<Rightarrow> (nat \<Rightarrow> int) \<Rightarrow> RepoDbFile \<Rightarrow> RepoDbType \<Rightarrow> string \<Rightarrow> desc_model \<times> files_model \<Rightarrow> world \<Rightarrow> error option \<times> world" where
  "stream_package dflt time_time repodbfile db_type vers pkg w =
     (let (desc, fls) = pkg;
          dirname = desc_name desc @ ''-'' @ vers;
          w = add_directory dflt time_time dirname w
      in case add_rendered dflt time_time (dirname @ ''/desc'')
                (render_desc_template repodbfile desc) w of
           (Some e, w) \<Rightarrow> (Some e, w)
         | (None, w) \<Rightarrow>
             if db_type = RepoDbType_FILES
             then add_rendered dflt time_time (dirname @ ''/files'')
                    (render_files_template repodbfile fls) w
             else (None, w))"

fun stream_packages :: "defaults \<Rightarrow> (nat \<Rightarrow> int) \<Rightarrow> RepoDbFile \<Rightarrow> RepoDbType \<Rightarrow> string \<Rightarrow> (desc_model \<times> files_model) list \<Rightarrow> world \<Rightarrow> error option \<times> world" where
  "stream_packages dflt time_time repodbfile db_type vers [] w = (None, w)"
| "stream_packages dflt time_time repodbfile db_type vers (pkg # pkgs) w =
     (case stream_package dflt time_time repodbfile db_type vers pkg w of
        (Some e, w') \<Rightarrow> (Some e, w')
      | (None, w') \<Rightarrow> stream_packages dflt time_time repodbfile db_type vers pkgs w')"

text \<open>
  The function itself. Its result is the exception raised, if any, and the state it
  leaves: what was added before an exception stays in the archive.
\<close>

definition stream_package_base_to_db :: "defaults \<Rightarrow> (nat \<Rightarrow> int) \<Rightarrow> OutputPackageBase \<Rightarrow> RepoDbFile \<Rightarrow> RepoDbType \<Rightarrow> world \<Rightarrow> error option \<times> world" where
  "stream_package_base_to_db dflt time_time model repodbfile db_type w =
     stream_packages dflt time_time repodbfile db_type (version model)
       (get_packages_as_models model) w"

section \<open>Notions used to state and prove the properties\<close>

text \<open>What a run of the writer added to the archive: the entries after those of the state it started in.\<close>

definition emitted :: "world \<Rightarrow> world \<Rightarrow> TarFile" where
  "emitted w w' = drop (length (db w)) (db w')"

text \<open>An entry with its modification time set aside.\<close>

definition without_mtime :: "TarInfo \<times> byte list option \<Rightarrow> TarInfo \<times> byte list option" where
  "without_mtime entry = ((fst entry)\<lparr>ti_mtime := 0\<rparr>, snd entry)"

text \<open>The bytes of a rendered text, when rendering and encoding both succeed.\<close>

definition encoded :: "error + unicode \<Rightarrow> error + byte list" where
  "encoded rendered = (case rendered of Inl e \<Rightarrow> Inl e | Inr content \<Rightarrow> str_encode content)"

text \<open>
  A package renders for a database type when its desc text renders and encodes, and for a
  files database its files text too.
\<close>

definition renders :: "RepoDbFile \<Rightarrow> RepoDbType \<Rightarrow> desc_model \<times> files_model \<Rightarrow> bool" where
  "renders repodbfile db_type pkg \<longleftrightarrow>
     \<not> isl (encoded (render_desc_template repodbfile (fst pkg)))
     \<and> (db_type = RepoDbType_FILES \<longrightarrow> \<not> isl (encoded (render_files_template repodbfile (snd pkg))))"

text \<open>
  The entries of one package in closed form, for the proofs: the directory entry and the
  file entries that the loop body adds when the clock has been read \<open>n\<close> times before, and
  the exception that stops it, if any.
\<close>

definition dir_entry :: "defaults \<Rightarrow> int \<Rightarrow> string \<Rightarrow> TarInfo \<times> byte list option" where
  "dir_entry dflt t dirname =
     (\<lparr>ti_name = dirname, ti_type = DIRTYPE, ti_size = 0, ti_mtime = t,
       ti_uname = DB_USER dflt, ti_gname = DB_GROUP dflt, ti_mode = DB_DIR_MODE dflt\<rparr>, None)"

definition file_entry :: "defaults \<Rightarrow> int \<Rightarrow> string \<Rightarrow> byte list \<Rightarrow> TarInfo \<times> byte list option" where
  "file_entry dflt t path bytes =
     (\<lparr>ti_name = path, ti_type = REGTYPE, ti_size = length bytes, ti_mtime = t,
       ti_uname = DB_USER dflt, ti_gname = DB_GROUP dflt, ti_mode = DB_FILE_MODE dflt\<rparr>, Some bytes)"

definition package_entries :: "defaults \<Rightarrow> (nat \<Rightarrow> int) \<Rightarrow> RepoDbFile \<Rightarrow> RepoDbType \<Rightarrow> string \<Rightarrow> desc_model \<times> files_model \<Rightarrow> nat \<Rightarrow> TarFile \<times> error option" where
  "package_entries dflt time_time repodbfile db_type vers pkg n =
     (let dirname = desc_name (fst pkg) @ ''-'' @ vers;
          d = dir_entry dflt (time_time n) dirname
      in case encoded (render_desc_template repodbfile (fst pkg)) of
           Inl e \<Rightarrow> ([d], Some e)
         | Inr bytes \<Rightarrow>
             (let f = file_entry dflt (time_time (n + 1)) (dirname @ ''/desc'') bytes
              in if db_type = RepoDbType_FILES
                 then (case encoded (render_files_template repodbfile (snd pkg)) of
                         Inl e \<Rightarrow> ([d, f], Some e)
                       | Inr bytes' \<Rightarrow>
                           ([d, f, file_entry dflt (time_time (n + 2)) (dirname @ ''/files'') bytes'],
                            None))
                 else ([d, f], None)))"

fun group_entries :: "defaults \<Rightarrow> (nat \<Rightarrow> int) \<Rightarrow> RepoDbFile \<Rightarrow> RepoDbType \<Rightarrow> string \<Rightarrow> (desc_model \<times> files_model) list \<Rightarrow> nat \<Rightarrow> TarFile \<times> error option" where
  "group_entries dflt time_time repodbfile db_type vers [] n = ([], None)"
| "group_entries dflt time_time repodbfile db_type vers (pkg # pkgs) n =
     (case package_entries dflt time_time repodbfile db_type vers pkg n of
        (new, Some e) \<Rightarrow> (new, Some e)
      | (new, None) \<Rightarrow>
          (new @ fst (group_entries dflt time_time repodbfile db_type vers pkgs (n + length new)),
           snd (group_entries dflt time_time repodbfile db_type vers pkgs (n + length new))))"

text \<open>The metadata of an entry come from the constants: user, group, and the mode that goes with its type.\<close>

definition meta_ok :: "defaults \<Rightarrow> TarInfo \<times> byte list option \<Rightarrow> bool" where
  "meta_ok dflt e \<longleftrightarrow>
     ti_uname (fst e) = DB_USER dflt \<and> ti_gname (fst e) = DB_GROUP dflt
     \<and> ti_mode (fst e) = (if ti_type (fst e) = DIRTYPE then DB_DIR_MODE dflt else DB_FILE_MODE dflt)"

text \<open>
  The members of one package as the specification lists them: the directory
  \<open><package-name>-<version>\<close>, then its desc member, then its files member when the
  database has file lists; each with the type of its entry.
\<close>

definition spec_package_members :: "string \<Rightarrow> RepoDbType \<Rightarrow> desc_model \<times> files_model \<Rightarrow> (string \<times> tar_type) list" where
  "spec_package_members vers db_type pkg =
     (let dirname = desc_name (fst pkg) @ ''-'' @ vers
      in [(dirname, DIRTYPE), (dirname @ ''/desc'', REGTYPE)]
         @ (if db_type = RepoDbType_FILES then [(dirname @ ''/files'', REGTYPE)] else []))"

text \<open>The name and the type of an entry.\<close>

definition name_and_type :: "TarInfo \<times> byte list option \<Rightarrow> string \<times> tar_type" where
  "name_and_type e = (ti_name (fst e), ti_type (fst e))"

text \<open>
  The entry is a regular file of the given path, carries the given bytes, and its header
  records their number as the size.
\<close>

definition sized_member :: "TarInfo \<times> byte list option \<Rightarrow> string \<Rightarrow> byte list \<Rightarrow> bool" where
  "sized_member e path bytes \<longleftrightarrow>
     ti_name (fst e) = path \<and> ti_type (fst e) = REGTYPE
     \<and> ti_size (fst e) = length bytes \<and> snd e = Some bytes"

text \<open>
  The entry is the desc member of the package, or (in a files database) its files member:
  it carries the UTF-8 encoding of the rendered text, with its length as the size.
\<close>

definition member_of_package :: "RepoDbFile \<Rightarrow> RepoDbType \<Rightarrow> string \<Rightarrow> TarInfo \<times> byte list option \<Rightarrow> desc_model \<times> files_model \<Rightarrow> bool" where
  "member_of_package repodbfile db_type vers e pkg \<longleftrightarrow>
     (case encoded (render_desc_template repodbfile (fst pkg)) of
        Inl err \<Rightarrow> False
      | Inr bytes \<Rightarrow> sized_member e (desc_name (fst pkg) @ ''-'' @ vers @ ''/desc'') bytes)
     \<or> (db_type = RepoDbType_FILES \<and>
         (case encoded (render_files_template repodbfile (snd pkg)) of
            Inl err \<Rightarrow> False
          | Inr bytes \<Rightarrow> sized_member e (desc_name (fst pkg) @ ''-'' @ vers @ ''/files'') bytes))"

text \<open>Inputs for the concrete instances below.\<close>

definition example_defaults :: defaults where
  "example_defaults = \<lparr>DB_USER = ''root'', DB_GROUP = ''root'', DB_DIR_MODE = 493, DB_FILE_MODE = 420\<rparr>"

definition example_desc_text :: "desc_model \<Rightarrow> error + unicode" where
  "example_desc_text d = Inr (map of_char (''%NAME%'' @ [newline] @ desc_name d @ [newline]) @ [0xE9, 0x20AC])"

definition example_files_text :: "files_model \<Rightarrow> error + unicode" where
  "example_files_text f = Inr (map of_char (''%FILES%'' @ [newline] @ concat (files f)))"

definition example_repodbfile :: RepoDbFile where
  "example_repodbfile =
     \<lparr>render_desc_template = example_desc_text, render_files_template = example_files_text\<rparr>"

definition example_model :: OutputPackageBase where
  "example_model = \<lparr>version = ''1.0-1'', packages = [(\<lparr>desc_name = ''foo''\<rparr>, \<lparr>files = [''usr/'']\<rparr>)]\<rparr>"

definition clock_from :: "int \<Rightarrow> nat \<Rightarrow> int" where
  "clock_from t k = t + int k"

definition empty_world :: world where
  "empty_world = \<lparr>db = [], readings = 0\<rparr>"

definition readable :: "string \<Rightarrow> error + unicode" where
  "readable nm = Inr []"

definition unreadable :: "string \<Rightarrow> error + unicode" where
  "unreadable nm = Inl AttributeError"

definition example_db :: TarFile_read where
  "example_db = \<lparr>getnames = [''foo-1.0-1'', ''foo-1.0-1/desc'', ''foo-1.0-1/files''], read_text = readable\<rparr>"

definition example_db_directory :: TarFile_read where
  "example_db_directory = \<lparr>getnames = [''a-1-1/desc''], read_text = unreadable\<rparr>"

section \<open>Properties of the package name\<close>

lemma match_alts_Some:
  "match_alts alts s = Some n \<Longrightarrow> \<exists>a\<in>set alts. n = length a \<and> (s = a \<or> s = a @ [newline])"
proof (induction alts)
  case Nil
  then show ?case by simp
next
  case (Cons a as)
  show ?case
  proof (cases "prefix a s \<and> dollar (drop (length a) s)")
    case True
    then obtain r where r: "s = a @ r" by (auto simp: prefix_def)
    with True have "r = [] \<or> r = [newline]" by (simp add: dollar_def)
    moreover from True Cons.prems have "n = length a" by simp
    ultimately show ?thesis using r by auto
  next
    case False
    with Cons show ?thesis by auto
  qed
qed

lemma match_alts_desc_files_None:
  "match_alts [''/desc'', ''/files''] (c # d @ ''/desc'') = None"
  "match_alts [''/desc'', ''/files''] (c # d @ ''/files'') = None"
proof -
  { fix sfx :: string assume sfx: "sfx = ''/desc'' \<or> sfx = ''/files''"
    have "match_alts [''/desc'', ''/files''] (c # d @ sfx) = None"
    proof (rule ccontr)
      assume "match_alts [''/desc'', ''/files''] (c # d @ sfx) \<noteq> None"
      then obtain n where "match_alts [''/desc'', ''/files''] (c # d @ sfx) = Some n" by auto
      from match_alts_Some[OF this]
      have alt: "c # d @ sfx = ''/desc'' \<or> c # d @ sfx = ''/desc'' @ [newline]
        \<or> c # d @ sfx = ''/files'' \<or> c # d @ sfx = ''/files'' @ [newline]"
        by auto
      have l: "last (c # d @ sfx) = CHR ''c'' \<or> last (c # d @ sfx) = CHR ''s''"
        using sfx by auto
      from alt show False
      proof (elim disjE)
        assume e: "c # d @ sfx = ''/desc''"
        then have "length (c # d @ sfx) = 5" by simp
        with sfx show False by auto
      next
        assume e: "c # d @ sfx = ''/desc'' @ [newline]"
        then have "last (c # d @ sfx) = newline" by simp
        with l show False by (simp add: newline_def)
      next
        assume e: "c # d @ sfx = ''/files''"
        then have "length (c # d @ sfx) = 6" by simp
        with sfx have "d = [] \<and> sfx = ''/desc''" by auto
        with e show False by simp
      next
        assume e: "c # d @ sfx = ''/files'' @ [newline]"
        then have "last (c # d @ sfx) = newline" by simp
        with l show False by (simp add: newline_def)
      qed
    qed }
  then show "match_alts [''/desc'', ''/files''] (c # d @ ''/desc'') = None"
    "match_alts [''/desc'', ''/files''] (c # d @ ''/files'') = None" by blast+
qed

lemma dirname_of_desc: "dirname_of (d @ ''/desc'') = d"
proof (induction d)
  case Nil
  show ?case by (simp add: dirname_of_def dollar_def)
next
  case (Cons c d)
  then show ?case using match_alts_desc_files_None(1)[of c d] by (simp add: dirname_of_def)
qed

lemma dirname_of_files: "dirname_of (d @ ''/files'') = d"
proof (induction d)
  case Nil
  show ?case by (simp add: dirname_of_def dollar_def)
next
  case (Cons c d)
  then show ?case using match_alts_desc_files_None(2)[of c d] by (simp add: dirname_of_def)
qed

lemma re_split_not_Nil: "re_split s \<noteq> []"
  by (induction s) (auto split: list.splits)

lemma re_split_hyphen_free: "CHR ''-'' \<notin> set v \<Longrightarrow> re_split v = [v]"
  by (induction v) auto

lemma re_split_append: "re_split (a @ CHR ''-'' # b) = re_split a @ ''-'' # re_split b"
proof (induction a)
  case Nil
  show ?case by simp
next
  case (Cons c a)
  then show ?case using re_split_not_Nil[of a] by (cases "re_split a") auto
qed

lemma concat_re_split: "concat (re_split s) = s"
  by (induction s) (auto split: list.splits)

lemma length_re_split: "length (re_split s) = 2 * count_list s (CHR ''-'') + 1"
  by (induction s) (auto split: list.splits simp: re_split_not_Nil)

text \<open>
  Claim C1. For a member path \<open><dirname>/desc\<close> or \<open><dirname>/files\<close> whose directory name
  is \<open><name>-<version>-<release>\<close>, with a version and a release that are single
  hyphen-delimited components (no hyphen in them) and any name, with or without hyphens,
  the function returns exactly the name. The witness is the directory name
  \<open>foo-bar-1.0-1\<close>, which gives \<open>foo-bar\<close>.
\<close>

theorem package_name_recovered:
  assumes "CHR ''-'' \<notin> set vers" and "CHR ''-'' \<notin> set release"
  shows "extract_db_member_package_name (nm @ ''-'' @ vers @ ''-'' @ release @ ''/desc'') = Inr nm
       \<and> extract_db_member_package_name (nm @ ''-'' @ vers @ ''-'' @ release @ ''/files'') = Inr nm"
proof -
  let ?d = "nm @ ''-'' @ vers @ ''-'' @ release"
  have tokens: "re_split ?d = re_split nm @ [''-'', vers, ''-'', release]"
    using assms by (simp add: re_split_append re_split_hyphen_free)
  have "dirname_of (?d @ ''/desc'') = ?d" and "dirname_of (?d @ ''/files'') = ?d"
    by (rule dirname_of_desc, rule dirname_of_files)
  moreover have "concat (slice_to_minus 4 (re_split ?d)) = nm"
    unfolding tokens by (simp add: slice_to_minus_def concat_re_split)
  ultimately show ?thesis
    by (simp add: extract_db_member_package_name_def)
qed

theorem package_name_recovered_witness:
  "CHR ''-'' \<notin> set ''1.0'' \<and> CHR ''-'' \<notin> set ''1''
   \<and> extract_db_member_package_name ''foo-bar-1.0-1/desc'' = Inr ''foo-bar''
   \<and> extract_db_member_package_name ''foo-bar-1.0-1/files'' = Inr ''foo-bar''"
  using package_name_recovered [of "''1.0''" "''1''" "''foo-bar''"] by simp

text \<open>
  Claim C3 as stated fails. It asks for an \<open>IdentifierFormatError\<close> when the directory
  name splits into fewer than four tokens. The function has no error path: at
  \<open>foo/desc\<close>, one token, it returns the empty string.
\<close>

theorem short_dirname_no_error_counterexample:
  "length (re_split (dirname_of ''foo/desc'')) < 4
   \<and> extract_db_member_package_name ''foo/desc'' = Inr ''''"
  by (simp add: extract_db_member_package_name_def dirname_of_def slice_to_minus_def dollar_def)

text \<open>
  Claim C3, amended. For every member path whose directory name splits into fewer than
  four tokens, the function returns the empty string as the package name, without an
  error.
\<close>

theorem fewer_than_four_tokens_empty_name:
  "length (re_split (dirname_of nm)) < 4 \<Longrightarrow> extract_db_member_package_name nm = Inr ''''"
  by (simp add: extract_db_member_package_name_def slice_to_minus_def)

theorem fewer_than_four_tokens_empty_name_witness:
  "length (re_split (dirname_of ''foo-1.0/files'')) < 4
   \<and> extract_db_member_package_name ''foo-1.0/files'' = Inr ''''"
proof -
  have h: "length (re_split (dirname_of ''foo-1.0/files'')) < 4"
    by (simp add: dirname_of_def dollar_def)
  from fewer_than_four_tokens_empty_name [OF h] h show ?thesis by simp
qed

text \<open>
  Claim C9. When the directory name of a member path (the path without its trailing
  \<open>/desc\<close> or \<open>/files\<close>) splits into at most four tokens, the function returns the empty
  string, and it does not raise. A directory name with at most one hyphen, such as \<open>foo\<close>
  or \<open>foo-1.0\<close>, splits into at most three tokens.
\<close>

theorem at_most_four_tokens_empty_name:
  "(length (re_split (dirname_of nm)) \<le> 4 \<longrightarrow> extract_db_member_package_name nm = Inr '''')
   \<and> (count_list (dirname_of nm) (CHR ''-'') \<le> 1 \<longrightarrow> length (re_split (dirname_of nm)) \<le> 4)"
  by (simp add: extract_db_member_package_name_def slice_to_minus_def length_re_split)

theorem at_most_four_tokens_empty_name_witness:
  "length (re_split (dirname_of ''foo-1.0/desc'')) \<le> 4
   \<and> count_list (dirname_of ''foo-1.0/desc'') (CHR ''-'') \<le> 1
   \<and> extract_db_member_package_name ''foo-1.0/desc'' = Inr ''''"
proof -
  have h: "count_list (dirname_of ''foo-1.0/desc'') (CHR ''-'') \<le> 1"
    by (simp add: dirname_of_def dollar_def)
  from at_most_four_tokens_empty_name [of "''foo-1.0/desc''"] h show ?thesis by blast
qed

text \<open>
  Claim C10. For every directory path \<open>d\<close>, the member paths \<open>d/desc\<close> and \<open>d/files\<close> give
  the same package name.
\<close>

theorem desc_and_files_same_package_name:
  "extract_db_member_package_name (d @ ''/desc'') = extract_db_member_package_name (d @ ''/files'')"
  by (simp add: extract_db_member_package_name_def dirname_of_desc dirname_of_files)

section \<open>Properties of the reader\<close>

lemma match_alts_self:
  "s = a \<or> s = a @ [newline] \<Longrightarrow> prefix a s \<and> dollar (drop (length a) s)"
  by (auto simp: dollar_def)

lemma match_alts_iff:
  "match_alts alts s \<noteq> None \<longleftrightarrow> (\<exists>a\<in>set alts. s = a \<or> s = a @ [newline])"
proof
  assume "match_alts alts s \<noteq> None"
  then obtain n where "match_alts alts s = Some n" by auto
  from match_alts_Some[OF this] show "\<exists>a\<in>set alts. s = a \<or> s = a @ [newline]" by blast
next
  assume "\<exists>a\<in>set alts. s = a \<or> s = a @ [newline]"
  then show "match_alts alts s \<noteq> None"
  proof (induction alts)
    case Nil
    then show ?case by simp
  next
    case (Cons a as)
    show ?case
    proof (cases "prefix a s \<and> dollar (drop (length a) s)")
      case True
      then show ?thesis by simp
    next
      case False
      with match_alts_self[of s a] have "\<not> (s = a \<or> s = a @ [newline])" by blast
      with Cons.prems have "\<exists>a\<in>set as. s = a \<or> s = a @ [newline]" by simp
      with Cons.IH False show ?thesis by simp
    qed
  qed
qed

lemma bex_disj_rearrange:
  "((\<exists>a\<in>A. P a \<or> Q a) \<or> (\<exists>a\<in>A. R a \<or> S a)) \<longleftrightarrow> (\<exists>a\<in>A. (P a \<or> R a) \<or> (Q a \<or> S a))"
  by blast

lemma re_search_iff:
  "re_search alts s \<longleftrightarrow> (\<exists>a\<in>set alts. suffix a s \<or> suffix (a @ [newline]) s)"
proof (induction s)
  case Nil
  have "re_search alts [] \<longleftrightarrow> (\<exists>a\<in>set alts. [] = a \<or> [] = a @ [newline])"
    unfolding re_search.simps match_alts_iff ..
  also have "\<dots> \<longleftrightarrow> (\<exists>a\<in>set alts. a = [])"
    by (metis Nil_is_append_conv not_Cons_self2)
  also have "\<dots> \<longleftrightarrow> (\<exists>a\<in>set alts. suffix a [] \<or> suffix (a @ [newline]) [])"
    by simp
  finally show ?case .
next
  case (Cons c cs)
  have flip: "(c # cs = x) = (x = c # cs)" for x by (rule eq_commute)
  have "re_search alts (c # cs) \<longleftrightarrow>
    (\<exists>a\<in>set alts. c # cs = a \<or> c # cs = a @ [newline]) \<or> re_search alts cs"
    unfolding re_search.simps match_alts_iff ..
  also have "\<dots> \<longleftrightarrow> (\<exists>a\<in>set alts. c # cs = a \<or> c # cs = a @ [newline])
      \<or> (\<exists>a\<in>set alts. suffix a cs \<or> suffix (a @ [newline]) cs)"
    unfolding Cons.IH ..
  also have "\<dots> \<longleftrightarrow> (\<exists>a\<in>set alts. (c # cs = a \<or> suffix a cs) \<or> (c # cs = a @ [newline] \<or> suffix (a @ [newline]) cs))"
    by (rule bex_disj_rearrange)
  finally show ?case unfolding suffix_Cons flip .
qed

lemma default_regex_iff:
  "default_regex nm \<longleftrightarrow> suffix ''/desc'' nm \<or> suffix ''/files'' nm
     \<or> suffix (''/desc'' @ [newline]) nm \<or> suffix (''/files'' @ [newline]) nm"
  unfolding default_regex_def re_search_iff by auto

lemma suffix_snoc:
  assumes "suffix (xs @ [x]) ys"
  shows "last ys = x" and "suffix xs (butlast ys)"
proof -
  from assms obtain zs where ys: "ys = zs @ xs @ [x]" by (auto simp: suffix_def)
  show "last ys = x" by (simp add: ys)
  have "butlast ys = zs @ xs" by (simp add: ys butlast_append)
  then show "suffix xs (butlast ys)" by (simp add: suffix_def)
qed

lemma not_desc_and_files:
  "\<not> (re_search [''/desc''] nm \<and> re_search [''/files''] nm)"
proof
  assume a: "re_search [''/desc''] nm \<and> re_search [''/files''] nm"
  then have d: "suffix ''/desc'' nm \<or> suffix (''/desc'' @ [newline]) nm"
    and f: "suffix ''/files'' nm \<or> suffix (''/files'' @ [newline]) nm"
    by (simp_all add: re_search_iff)
  have c: "suffix ''/desc'' s \<Longrightarrow> last s = CHR ''c''" for s
    using suffix_snoc(1)[of "''/des''" "CHR ''c''" s] by simp
  have e: "suffix ''/files'' s \<Longrightarrow> last s = CHR ''s''" for s
    using suffix_snoc(1)[of "''/file''" "CHR ''s''" s] by simp
  from d f show False
  proof (elim disjE)
    assume "suffix ''/desc'' nm" "suffix ''/files'' nm"
    then show False using c[of nm] e[of nm] by simp
  next
    assume "suffix ''/desc'' nm" "suffix (''/files'' @ [newline]) nm"
    then show False using c[of nm] suffix_snoc(1)[of "''/files''" newline nm]
      by (simp add: newline_def)
  next
    assume "suffix (''/desc'' @ [newline]) nm" "suffix ''/files'' nm"
    then show False using e[of nm] suffix_snoc(1)[of "''/desc''" newline nm]
      by (simp add: newline_def)
  next
    assume "suffix (''/desc'' @ [newline]) nm" "suffix (''/files'' @ [newline]) nm"
    then have "suffix ''/desc'' (butlast nm)" "suffix ''/files'' (butlast nm)"
      using suffix_snoc(2)[of "''/desc''" newline nm] suffix_snoc(2)[of "''/files''" newline nm]
      by simp_all
    then show False using c[of "butlast nm"] e[of "butlast nm"] by simp
  qed
qed

lemma member_file_type_desc: "suffix ''/desc'' nm \<Longrightarrow> member_file_type nm = DESC"
  using not_desc_and_files[of nm] by (auto simp: member_file_type_def re_search_iff)

lemma member_file_type_files: "suffix ''/files'' nm \<Longrightarrow> member_file_type nm = FILES"
  by (auto simp: member_file_type_def re_search_iff)

lemma member_file_type_known: "default_regex nm \<Longrightarrow> member_file_type nm \<noteq> UNKNOWN"
  by (auto simp: member_file_type_def default_regex_def re_search_iff)

lemma yield_members_Cons:
  "yield_members rd (nm # nms) =
     (case rd nm of
        Inl e \<Rightarrow> ([], Some e)
      | Inr txt \<Rightarrow>
          (\<lparr>member_type = member_file_type nm,
            name = concat (slice_to_minus 4 (re_split (dirname_of nm))),
            data = txt\<rparr> # fst (yield_members rd nms),
           snd (yield_members rd nms)))"
  by (simp add: extract_db_member_package_name_def case_prod_beta split: sum.split)

lemma yield_members_all_read:
  "\<forall>nm\<in>set nms. \<exists>t. rd nm = Inr t \<Longrightarrow>
   yield_members rd nms =
     (map (\<lambda>nm. \<lparr>member_type = member_file_type nm,
                  name = concat (slice_to_minus 4 (re_split (dirname_of nm))),
                  data = projr (rd nm)\<rparr>) nms, None)"
proof (induction nms)
  case Nil
  show ?case by simp
next
  case (Cons nm nms)
  from Cons.prems obtain t where t: "rd nm = Inr t" by auto
  from Cons have IH: "yield_members rd nms =
     (map (\<lambda>nm. \<lparr>member_type = member_file_type nm,
                  name = concat (slice_to_minus 4 (re_split (dirname_of nm))),
                  data = projr (rd nm)\<rparr>) nms, None)" by simp
  show ?case unfolding yield_members_Cons by (simp add: t IH)
qed

lemma yield_members_nth:
  "i < length (fst (yield_members rd nms)) \<Longrightarrow>
   i < length nms \<and> member_type (fst (yield_members rd nms) ! i) = member_file_type (nms ! i)"
proof (induction nms arbitrary: i)
  case Nil
  then show ?case by simp
next
  case (Cons nm nms)
  show ?case
  proof (cases "rd nm")
    case (Inl e)
    with Cons.prems show ?thesis unfolding yield_members_Cons by simp
  next
    case (Inr content)
    show ?thesis
    proof (cases i)
      case 0
      with Inr show ?thesis unfolding yield_members_Cons by simp
    next
      case (Suc j)
      with Inr Cons.prems have "j < length (fst (yield_members rd nms))"
        unfolding yield_members_Cons by simp
      from Cons.IH[OF this] Suc Inr show ?thesis unfolding yield_members_Cons by simp
    qed
  qed
qed

text \<open>
  Claim C8. The \<open>i\<close>-th member yielded comes from the \<open>i\<close>-th retained path. When that
  path ends in \<open>/desc\<close> its kind is \<open>DESC\<close>, when it ends in \<open>/files\<close> its kind is
  \<open>FILES\<close>, and under the default regex \<open>(/desc|/files)$\<close> no member yielded has the kind
  \<open>UNKNOWN\<close>. This holds for every archive, also when the iteration ends with an
  exception.
\<close>

theorem member_kind_by_suffix:
  "let kept = filter default_regex (getnames db_file);
       ys = fst (db_file_member_as_model db_file default_regex)
   in length ys \<le> length kept \<and>
      (\<forall>i<length ys.
         member_type (ys ! i) \<noteq> UNKNOWN
         \<and> (suffix ''/desc'' (kept ! i) \<longrightarrow> member_type (ys ! i) = DESC)
         \<and> (suffix ''/files'' (kept ! i) \<longrightarrow> member_type (ys ! i) = FILES))"
proof -
  let ?kept = "filter default_regex (getnames db_file)"
  let ?ys = "fst (yield_members (read_text db_file) ?kept)"
  have nth: "\<And>i. i < length ?ys \<Longrightarrow>
      i < length ?kept \<and> member_type (?ys ! i) = member_file_type (?kept ! i)"
    by (rule yield_members_nth)
  have len: "length ?ys \<le> length ?kept"
    using nth[of "length ?ys - 1"] by (cases "length ?ys") auto
  have "member_type (?ys ! i) \<noteq> UNKNOWN
         \<and> (suffix ''/desc'' (?kept ! i) \<longrightarrow> member_type (?ys ! i) = DESC)
         \<and> (suffix ''/files'' (?kept ! i) \<longrightarrow> member_type (?ys ! i) = FILES)"
    if i: "i < length ?ys" for i
  proof -
    from nth[OF i] have k: "i < length ?kept" and t: "member_type (?ys ! i) = member_file_type (?kept ! i)"
      by simp_all
    from k have "?kept ! i \<in> set ?kept" by (rule nth_mem)
    then have "default_regex (?kept ! i)" by simp
    then have "member_file_type (?kept ! i) \<noteq> UNKNOWN" by (rule member_file_type_known)
    with t show ?thesis by (simp add: member_file_type_desc member_file_type_files)
  qed
  with len show ?thesis by (simp add: db_file_member_as_model_def)
qed

lemma example_db_kept:
  "filter default_regex (getnames example_db) = [''foo-1.0-1/desc'', ''foo-1.0-1/files'']"
  by (simp add: example_db_def default_regex_def dollar_def)

lemma example_db_members:
  "db_file_member_as_model example_db default_regex =
     ([\<lparr>member_type = DESC, name = ''foo'', data = []\<rparr>,
       \<lparr>member_type = FILES, name = ''foo'', data = []\<rparr>], None)"
  unfolding db_file_member_as_model_def example_db_kept
  by (simp add: example_db_def readable_def member_file_type_def dollar_def
      extract_db_member_package_name_def dirname_of_def slice_to_minus_def)

theorem member_kind_by_suffix_witness:
  "let kept = filter default_regex (getnames example_db);
       ys = fst (db_file_member_as_model example_db default_regex)
   in 0 < length ys \<and> suffix ''/desc'' (kept ! 0) \<and> member_type (ys ! 0) = DESC
      \<and> 1 < length ys \<and> suffix ''/files'' (kept ! 1) \<and> member_type (ys ! 1) = FILES"
  using member_kind_by_suffix [of example_db]
  by (simp add: example_db_kept example_db_members suffix_to_prefix)

text \<open>
  Claim C5 as stated fails. A member \<open>a-1-1/desc\<close> whose text cannot be read (a
  directory of that name: \<open>extractfile\<close> returns \<open>None\<close>) is retained, and the exception
  raised on reading it ends the iteration: no member is yielded for a path that ends in
  \<open>/desc\<close>, and an error is raised.
\<close>

theorem reader_unreadable_member_counterexample:
  "getnames example_db_directory = [''a-1-1/desc'']
   \<and> suffix ''/desc'' ''a-1-1/desc''
   \<and> db_file_member_as_model example_db_directory default_regex = ([], Some AttributeError)"
  by (simp add: db_file_member_as_model_def example_db_directory_def default_regex_def
      dollar_def unreadable_def suffix_to_prefix extract_db_member_package_name_def)

text \<open>
  Claim C5, amended. For every archive in which the text of every member whose path ends
  in \<open>/desc\<close> or \<open>/files\<close> can be read and decoded, the reader with its default regex
  yields exactly one member per member whose path ends in \<open>/desc\<close> or \<open>/files\<close>, in the
  order of the archive, and raises nothing; every other member is skipped and never read.
  Archives with a member path that is \<open>/desc\<close> or \<open>/files\<close> followed by a final newline
  are left out of the statement.
\<close>

theorem reader_yields_every_match:
  assumes "\<forall>nm\<in>set (getnames db_file).
             (suffix ''/desc'' nm \<or> suffix ''/files'' nm) \<longrightarrow> \<not> isl (read_text db_file nm)"
    and "\<forall>nm\<in>set (getnames db_file).
             \<not> suffix (''/desc'' @ [newline]) nm \<and> \<not> suffix (''/files'' @ [newline]) nm"
  shows "db_file_member_as_model db_file default_regex =
           (map (\<lambda>nm. \<lparr>member_type = member_file_type nm,
                        name = projr (extract_db_member_package_name nm),
                        data = projr (read_text db_file nm)\<rparr>)
              (filter (\<lambda>nm. suffix ''/desc'' nm \<or> suffix ''/files'' nm) (getnames db_file)),
            None)"
proof -
  let ?ends = "\<lambda>nm. suffix ''/desc'' nm \<or> suffix ''/files'' nm"
  have kept: "filter default_regex (getnames db_file) = filter ?ends (getnames db_file)"
  proof (rule filter_cong [OF refl])
    fix nm assume "nm \<in> set (getnames db_file)"
    with assms(2) have "\<not> suffix (''/desc'' @ [newline]) nm" "\<not> suffix (''/files'' @ [newline]) nm"
      by simp_all
    then show "default_regex nm = ?ends nm"
      unfolding default_regex_iff by blast
  qed
  have "\<forall>nm\<in>set (filter ?ends (getnames db_file)). \<exists>t. read_text db_file nm = Inr t"
  proof
    fix nm assume "nm \<in> set (filter ?ends (getnames db_file))"
    then have "nm \<in> set (getnames db_file)" and "?ends nm" by simp_all
    with assms(1) have "\<not> isl (read_text db_file nm)" by blast
    then show "\<exists>t. read_text db_file nm = Inr t" by (cases "read_text db_file nm") simp_all
  qed
  from yield_members_all_read [OF this] show ?thesis
    unfolding db_file_member_as_model_def kept
    by (simp add: extract_db_member_package_name_def)
qed

theorem reader_yields_every_match_witness:
  "getnames example_db = [''foo-1.0-1'', ''foo-1.0-1/desc'', ''foo-1.0-1/files'']
   \<and> \<not> isl (read_text example_db ''foo-1.0-1/desc'')
   \<and> \<not> isl (read_text example_db ''foo-1.0-1/files'')
   \<and> db_file_member_as_model example_db default_regex =
     ([\<lparr>member_type = DESC, name = ''foo'', data = []\<rparr>,
       \<lparr>member_type = FILES, name = ''foo'', data = []\<rparr>], None)"
proof -
  have n: "getnames example_db = [''foo-1.0-1'', ''foo-1.0-1/desc'', ''foo-1.0-1/files'']"
    by (simp add: example_db_def)
  have r: "\<forall>nm\<in>set (getnames example_db).
             (suffix ''/desc'' nm \<or> suffix ''/files'' nm) \<longrightarrow> \<not> isl (read_text example_db nm)"
    by (simp add: example_db_def readable_def)
  have e: "\<forall>nm\<in>set (getnames example_db).
             \<not> suffix (''/desc'' @ [newline]) nm \<and> \<not> suffix (''/files'' @ [newline]) nm"
    unfolding n by (simp add: suffix_to_prefix newline_def)
  have k: "\<not> isl (read_text example_db ''foo-1.0-1/desc'')"
    "\<not> isl (read_text example_db ''foo-1.0-1/files'')"
    by (simp_all add: example_db_def readable_def)
  from reader_yields_every_match [OF r e] n k show ?thesis
    by (simp add: example_db_members)
qed

section \<open>Properties of the writer\<close>

lemma add_directory_eq:
  "add_directory dflt tt dn w =
     w\<lparr>db := db w @ [dir_entry dflt (tt (readings w)) dn], readings := Suc (readings w)\<rparr>"
  by (simp add: add_directory_def read_clock_def TarInfo_new_def addfile_def dir_entry_def)

lemma add_rendered_eq:
  "add_rendered dflt tt path rendered w =
     (case encoded rendered of
        Inl e \<Rightarrow> (Some e, w)
      | Inr bytes \<Rightarrow>
          (None, w\<lparr>db := db w @ [file_entry dflt (tt (readings w)) path bytes],
                    readings := Suc (readings w)\<rparr>))"
  by (simp add: add_rendered_def encoded_def read_clock_def TarInfo_new_def addfile_def
      file_entry_def split: sum.split)

lemma stream_package_eq:
  "stream_package dflt tt rf ty vers pkg w =
     (snd (package_entries dflt tt rf ty vers pkg (readings w)),
      w\<lparr>db := db w @ fst (package_entries dflt tt rf ty vers pkg (readings w)),
        readings := readings w + length (fst (package_entries dflt tt rf ty vers pkg (readings w)))\<rparr>)"
  by (simp add: stream_package_def package_entries_def add_directory_eq add_rendered_eq
      case_prod_beta Let_def split: sum.split)

lemma stream_packages_eq:
  "stream_packages dflt tt rf ty vers pkgs w =
     (snd (group_entries dflt tt rf ty vers pkgs (readings w)),
      w\<lparr>db := db w @ fst (group_entries dflt tt rf ty vers pkgs (readings w)),
        readings := readings w + length (fst (group_entries dflt tt rf ty vers pkgs (readings w)))\<rparr>)"
proof (induction pkgs arbitrary: w)
  case Nil
  show ?case by simp
next
  case (Cons pkg pkgs)
  obtain new r where pe: "package_entries dflt tt rf ty vers pkg (readings w) = (new, r)"
    by (cases "package_entries dflt tt rf ty vers pkg (readings w)")
  show ?case
  proof (cases r)
    case None
    then show ?thesis
      by (simp add: stream_package_eq pe Cons.IH add.assoc)
  next
    case (Some e)
    then show ?thesis
      by (simp add: stream_package_eq pe)
  qed
qed

lemma writer_eq:
  "stream_package_base_to_db dflt tt model rf ty w =
     (snd (group_entries dflt tt rf ty (version model) (packages model) (readings w)),
      w\<lparr>db := db w @ fst (group_entries dflt tt rf ty (version model) (packages model) (readings w)),
        readings := readings w
          + length (fst (group_entries dflt tt rf ty (version model) (packages model) (readings w)))\<rparr>)"
  by (simp add: stream_package_base_to_db_def get_packages_as_models_def stream_packages_eq)

lemma emitted_eq:
  "emitted w (snd (stream_package_base_to_db dflt tt model rf ty w)) =
     fst (group_entries dflt tt rf ty (version model) (packages model) (readings w))"
  by (simp add: writer_eq emitted_def)

lemma package_entries_cases:
  fixes dflt tt rf ty vers pkg n
  defines "dn \<equiv> desc_name (fst pkg) @ ''-'' @ vers"
  defines "pe \<equiv> package_entries dflt tt rf ty vers pkg n"
  obtains
    (desc_fails) e where
      "encoded (render_desc_template rf (fst pkg)) = Inl e"
      "pe = ([dir_entry dflt (tt n) dn], Some e)"
  | (desc_only) bs where
      "encoded (render_desc_template rf (fst pkg)) = Inr bs"
      "ty \<noteq> RepoDbType_FILES"
      "pe = ([dir_entry dflt (tt n) dn, file_entry dflt (tt (n + 1)) (dn @ ''/desc'') bs], None)"
  | (files_fails) bs e where
      "encoded (render_desc_template rf (fst pkg)) = Inr bs"
      "ty = RepoDbType_FILES"
      "encoded (render_files_template rf (snd pkg)) = Inl e"
      "pe = ([dir_entry dflt (tt n) dn, file_entry dflt (tt (n + 1)) (dn @ ''/desc'') bs], Some e)"
  | (desc_and_files) bs bs' where
      "encoded (render_desc_template rf (fst pkg)) = Inr bs"
      "ty = RepoDbType_FILES"
      "encoded (render_files_template rf (snd pkg)) = Inr bs'"
      "pe = ([dir_entry dflt (tt n) dn, file_entry dflt (tt (n + 1)) (dn @ ''/desc'') bs,
              file_entry dflt (tt (n + 2)) (dn @ ''/files'') bs'], None)"
proof (cases "encoded (render_desc_template rf (fst pkg))")
  case (Inl e)
  then have "pe = ([dir_entry dflt (tt n) dn], Some e)"
    by (simp add: pe_def dn_def package_entries_def)
  with Inl show ?thesis by (rule desc_fails)
next
  case (Inr bs)
  show ?thesis
  proof (cases "ty = RepoDbType_FILES")
    case False
    with Inr have "pe = ([dir_entry dflt (tt n) dn, file_entry dflt (tt (n + 1)) (dn @ ''/desc'') bs], None)"
      by (simp add: pe_def dn_def package_entries_def)
    with Inr False show ?thesis by (rule desc_only)
  next
    case True
    show ?thesis
    proof (cases "encoded (render_files_template rf (snd pkg))")
      case (Inl e)
      with Inr True
      have "pe = ([dir_entry dflt (tt n) dn, file_entry dflt (tt (n + 1)) (dn @ ''/desc'') bs], Some e)"
        by (simp add: pe_def dn_def package_entries_def)
      with Inr True Inl show ?thesis by (rule files_fails)
    next
      case (Inr bs')
      with \<open>encoded (render_desc_template rf (fst pkg)) = Inr bs\<close> True
      have "pe = ([dir_entry dflt (tt n) dn, file_entry dflt (tt (n + 1)) (dn @ ''/desc'') bs,
              file_entry dflt (tt (n + 2)) (dn @ ''/files'') bs'], None)"
        by (simp add: pe_def dn_def package_entries_def)
      with \<open>encoded (render_desc_template rf (fst pkg)) = Inr bs\<close> True Inr
      show ?thesis by (rule desc_and_files)
    qed
  qed
qed

lemma meta_ok_entries [simp]:
  "meta_ok dflt (dir_entry dflt t dn)" "meta_ok dflt (file_entry dflt t p bs)"
  by (simp_all add: meta_ok_def dir_entry_def file_entry_def)

lemma mtime_entries [simp]:
  "ti_mtime (fst (dir_entry dflt t dn)) = t" "ti_mtime (fst (file_entry dflt t p bs)) = t"
  by (simp_all add: dir_entry_def file_entry_def)

lemma package_entries_meta:
  "e \<in> set (fst (package_entries dflt tt rf ty vers pkg n)) \<Longrightarrow> meta_ok dflt e"
  by (cases rule: package_entries_cases[where dflt=dflt and tt=tt and rf=rf and ty=ty and vers=vers and pkg=pkg and n=n]) auto

lemma package_entries_mtime:
  "map (\<lambda>e. ti_mtime (fst e)) (fst (package_entries dflt tt rf ty vers pkg n))
     = map tt [n ..< n + length (fst (package_entries dflt tt rf ty vers pkg n))]"
  by (cases rule: package_entries_cases[where dflt=dflt and tt=tt and rf=rf and ty=ty and vers=vers and pkg=pkg and n=n])
     (simp_all add: upt_rec[of n] upt_rec[of "Suc n"] upt_rec[of "Suc (Suc n)"])

lemma group_entries_Cons_fail:
  "package_entries dflt tt rf ty vers pkg n = (new, Some e) \<Longrightarrow>
   group_entries dflt tt rf ty vers (pkg # pkgs) n = (new, Some e)"
  by simp

lemma group_entries_Cons_ok:
  "package_entries dflt tt rf ty vers pkg n = (new, None) \<Longrightarrow>
   group_entries dflt tt rf ty vers (pkg # pkgs) n =
     (new @ fst (group_entries dflt tt rf ty vers pkgs (n + length new)),
      snd (group_entries dflt tt rf ty vers pkgs (n + length new)))"
  by simp

lemma group_entries_meta:
  "e \<in> set (fst (group_entries dflt tt rf ty vers pkgs n)) \<Longrightarrow> meta_ok dflt e"
proof (induction pkgs arbitrary: n)
  case Nil
  then show ?case by simp
next
  case (Cons pkg pkgs)
  obtain new r where pe: "package_entries dflt tt rf ty vers pkg n = (new, r)"
    by (cases "package_entries dflt tt rf ty vers pkg n")
  have new: "\<And>x. x \<in> set new \<Longrightarrow> meta_ok dflt x"
    using package_entries_meta[of _ dflt tt rf ty vers pkg n] by (simp add: pe)
  show ?case
  proof (cases r)
    case None
    with Cons.prems pe have "e \<in> set new \<or> e \<in> set (fst (group_entries dflt tt rf ty vers pkgs (n + length new)))"
      by (simp add: group_entries_Cons_ok del: group_entries.simps)
    with new Cons.IH show ?thesis by blast
  next
    case (Some err)
    with Cons.prems pe have "e \<in> set new"
      by (simp add: group_entries_Cons_fail del: group_entries.simps)
    with new show ?thesis by blast
  qed
qed

lemma group_entries_mtime:
  "map (\<lambda>e. ti_mtime (fst e)) (fst (group_entries dflt tt rf ty vers pkgs n))
     = map tt [n ..< n + length (fst (group_entries dflt tt rf ty vers pkgs n))]"
proof (induction pkgs arbitrary: n)
  case Nil
  show ?case by simp
next
  case (Cons pkg pkgs)
  obtain new r where pe: "package_entries dflt tt rf ty vers pkg n = (new, r)"
    by (cases "package_entries dflt tt rf ty vers pkg n")
  have new: "map (\<lambda>e. ti_mtime (fst e)) new = map tt [n ..< n + length new]"
    using package_entries_mtime[of dflt tt rf ty vers pkg n] by (simp add: pe)
  show ?case
  proof (cases r)
    case None
    let ?rest = "fst (group_entries dflt tt rf ty vers pkgs (n + length new))"
    have g: "fst (group_entries dflt tt rf ty vers (pkg # pkgs) n) = new @ ?rest"
      using pe None by (simp add: group_entries_Cons_ok del: group_entries.simps)
    have "[n ..< n + length (new @ ?rest)] = [n ..< n + length new] @ [n + length new ..< n + length new + length ?rest]"
      using upt_add_eq_append[of n "n + length new" "length ?rest"] by (simp add: add.assoc)
    then show ?thesis
      unfolding g using new Cons.IH[of "n + length new"] by simp
  next
    case (Some err)
    have g: "fst (group_entries dflt tt rf ty vers (pkg # pkgs) n) = new"
      using pe Some by (simp add: group_entries_Cons_fail del: group_entries.simps)
    show ?thesis unfolding g by (rule new)
  qed
qed

lemma name_and_type_entries [simp]:
  "name_and_type (dir_entry dflt t dn) = (dn, DIRTYPE)"
  "name_and_type (file_entry dflt t p bs) = (p, REGTYPE)"
  by (simp_all add: name_and_type_def dir_entry_def file_entry_def)

lemma package_entries_renders:
  "snd (package_entries dflt tt rf ty vers pkg n) = None \<longleftrightarrow> renders rf ty pkg"
  by (cases rule: package_entries_cases[where dflt=dflt and tt=tt and rf=rf and ty=ty and vers=vers and pkg=pkg and n=n])
     (simp_all add: renders_def)

lemma package_entries_names:
  "renders rf ty pkg \<Longrightarrow>
   map name_and_type (fst (package_entries dflt tt rf ty vers pkg n)) = spec_package_members vers ty pkg"
  by (cases rule: package_entries_cases[where dflt=dflt and tt=tt and rf=rf and ty=ty and vers=vers and pkg=pkg and n=n])
     (simp_all add: renders_def spec_package_members_def)

lemma group_entries_renders:
  "snd (group_entries dflt tt rf ty vers pkgs n) = None \<longleftrightarrow> (\<forall>pkg\<in>set pkgs. renders rf ty pkg)"
proof (induction pkgs arbitrary: n)
  case Nil
  show ?case by simp
next
  case (Cons pkg pkgs)
  obtain new r where pe: "package_entries dflt tt rf ty vers pkg n = (new, r)"
    by (cases "package_entries dflt tt rf ty vers pkg n")
  have r: "r = None \<longleftrightarrow> renders rf ty pkg"
    using package_entries_renders[of dflt tt rf ty vers pkg n] by (simp add: pe)
  show ?case
  proof (cases r)
    case None
    with pe r Cons.IH[of "n + length new"] show ?thesis
      by (simp add: group_entries_Cons_ok del: group_entries.simps)
  next
    case (Some err)
    with pe r show ?thesis
      by (simp add: group_entries_Cons_fail del: group_entries.simps)
  qed
qed

lemma group_entries_names:
  "\<forall>pkg\<in>set pkgs. renders rf ty pkg \<Longrightarrow>
   map name_and_type (fst (group_entries dflt tt rf ty vers pkgs n))
     = concat (map (spec_package_members vers ty) pkgs)"
proof (induction pkgs arbitrary: n)
  case Nil
  show ?case by simp
next
  case (Cons pkg pkgs)
  obtain new r where pe: "package_entries dflt tt rf ty vers pkg n = (new, r)"
    by (cases "package_entries dflt tt rf ty vers pkg n")
  from Cons.prems have ok: "renders rf ty pkg" by simp
  then have r: "r = None"
    using package_entries_renders[of dflt tt rf ty vers pkg n] by (simp add: pe)
  have new: "map name_and_type new = spec_package_members vers ty pkg"
    using package_entries_names[OF ok, of dflt tt vers n] by (simp add: pe)
  from Cons.prems have "\<forall>pkg\<in>set pkgs. renders rf ty pkg" by simp
  from Cons.IH[OF this, of "n + length new"] pe r new show ?case
    by (simp add: group_entries_Cons_ok del: group_entries.simps)
qed

lemma sized_member_file_entry [simp]:
  "sized_member (file_entry dflt t p bs) p' bs' \<longleftrightarrow> p = p' \<and> bs = bs'"
  by (auto simp: sized_member_def file_entry_def)

lemma type_entries [simp]:
  "ti_type (fst (dir_entry dflt t dn)) = DIRTYPE" "ti_type (fst (file_entry dflt t p bs)) = REGTYPE"
  by (simp_all add: dir_entry_def file_entry_def)

lemma package_entries_sized:
  "e \<in> set (fst (package_entries dflt tt rf ty vers pkg n)) \<Longrightarrow> ti_type (fst e) = REGTYPE \<Longrightarrow>
   member_of_package rf ty vers e pkg"
  by (cases rule: package_entries_cases[where dflt=dflt and tt=tt and rf=rf and ty=ty and vers=vers and pkg=pkg and n=n])
     (auto simp: member_of_package_def)

lemma group_entries_sized:
  "e \<in> set (fst (group_entries dflt tt rf ty vers pkgs n)) \<Longrightarrow> ti_type (fst e) = REGTYPE \<Longrightarrow>
   \<exists>pkg\<in>set pkgs. member_of_package rf ty vers e pkg"
proof (induction pkgs arbitrary: n)
  case Nil
  then show ?case by simp
next
  case (Cons pkg pkgs)
  obtain new r where pe: "package_entries dflt tt rf ty vers pkg n = (new, r)"
    by (cases "package_entries dflt tt rf ty vers pkg n")
  have new: "e \<in> set new \<Longrightarrow> member_of_package rf ty vers e pkg"
    using package_entries_sized[of e dflt tt rf ty vers pkg n] Cons.prems(2) by (simp add: pe)
  show ?case
  proof (cases r)
    case None
    with Cons.prems pe have "e \<in> set new \<or> e \<in> set (fst (group_entries dflt tt rf ty vers pkgs (n + length new)))"
      by (simp add: group_entries_Cons_ok del: group_entries.simps)
    with new Cons.IH Cons.prems(2) show ?thesis by auto
  next
    case (Some err)
    with Cons.prems pe have "e \<in> set new"
      by (simp add: group_entries_Cons_fail del: group_entries.simps)
    with new show ?thesis by simp
  qed
qed

lemma package_entries_has_desc:
  "renders rf ty pkg \<Longrightarrow>
   \<exists>bs. encoded (render_desc_template rf (fst pkg)) = Inr bs
     \<and> (\<exists>e\<in>set (fst (package_entries dflt tt rf ty vers pkg n)).
           sized_member e (desc_name (fst pkg) @ ''-'' @ vers @ ''/desc'') bs)"
  by (cases rule: package_entries_cases[where dflt=dflt and tt=tt and rf=rf and ty=ty and vers=vers and pkg=pkg and n=n])
     (simp_all add: renders_def)

lemma package_entries_has_files:
  "renders rf ty pkg \<Longrightarrow> ty = RepoDbType_FILES \<Longrightarrow>
   \<exists>bs. encoded (render_files_template rf (snd pkg)) = Inr bs
     \<and> (\<exists>e\<in>set (fst (package_entries dflt tt rf ty vers pkg n)).
           sized_member e (desc_name (fst pkg) @ ''-'' @ vers @ ''/files'') bs)"
  by (cases rule: package_entries_cases[where dflt=dflt and tt=tt and rf=rf and ty=ty and vers=vers and pkg=pkg and n=n])
     (simp_all add: renders_def)

lemma group_entries_contains:
  "\<forall>p\<in>set pkgs. renders rf ty p \<Longrightarrow> pkg \<in> set pkgs \<Longrightarrow>
   \<exists>k. set (fst (package_entries dflt tt rf ty vers pkg k))
         \<subseteq> set (fst (group_entries dflt tt rf ty vers pkgs n))"
proof (induction pkgs arbitrary: n)
  case Nil
  then show ?case by simp
next
  case (Cons p pkgs)
  obtain new r where pe: "package_entries dflt tt rf ty vers p n = (new, r)"
    by (cases "package_entries dflt tt rf ty vers p n")
  from Cons.prems have "renders rf ty p" by simp
  then have r: "r = None"
    using package_entries_renders[of dflt tt rf ty vers p n] by (simp add: pe)
  have g: "fst (group_entries dflt tt rf ty vers (p # pkgs) n)
      = new @ fst (group_entries dflt tt rf ty vers pkgs (n + length new))"
    using pe r by (simp add: group_entries_Cons_ok del: group_entries.simps)
  show ?case
  proof (cases "pkg = p")
    case True
    have "set (fst (package_entries dflt tt rf ty vers pkg n))
         \<subseteq> set (fst (group_entries dflt tt rf ty vers (p # pkgs) n))"
      unfolding g using True pe by simp
    then show ?thesis ..
  next
    case False
    with Cons.prems have "pkg \<in> set pkgs" and "\<forall>p\<in>set pkgs. renders rf ty p" by simp_all
    from Cons.IH[OF this(2) this(1), of "n + length new"] obtain k where
      "set (fst (package_entries dflt tt rf ty vers pkg k))
         \<subseteq> set (fst (group_entries dflt tt rf ty vers pkgs (n + length new)))" ..
    then have "set (fst (package_entries dflt tt rf ty vers pkg k))
         \<subseteq> set (fst (group_entries dflt tt rf ty vers (p # pkgs) n))"
      unfolding g by auto
    then show ?thesis ..
  qed
qed

lemma without_mtime_entries [simp]:
  "without_mtime (dir_entry dflt t dn) = dir_entry dflt 0 dn"
  "without_mtime (file_entry dflt t p bs) = file_entry dflt 0 p bs"
  by (simp_all add: without_mtime_def dir_entry_def file_entry_def)

lemma package_entries_clock:
  "map without_mtime (fst (package_entries dflt tt rf ty vers pkg n))
     = map without_mtime (fst (package_entries dflt tt' rf ty vers pkg n'))
   \<and> snd (package_entries dflt tt rf ty vers pkg n) = snd (package_entries dflt tt' rf ty vers pkg n')"
  by (simp add: package_entries_def Let_def split: sum.split)

lemma group_entries_clock:
  "map without_mtime (fst (group_entries dflt tt rf ty vers pkgs n))
     = map without_mtime (fst (group_entries dflt tt' rf ty vers pkgs n'))
   \<and> snd (group_entries dflt tt rf ty vers pkgs n) = snd (group_entries dflt tt' rf ty vers pkgs n')"
proof (induction pkgs arbitrary: n n')
  case Nil
  show ?case by simp
next
  case (Cons pkg pkgs)
  obtain new r where pe: "package_entries dflt tt rf ty vers pkg n = (new, r)"
    by (cases "package_entries dflt tt rf ty vers pkg n")
  obtain new' r' where pe': "package_entries dflt tt' rf ty vers pkg n' = (new', r')"
    by (cases "package_entries dflt tt' rf ty vers pkg n'")
  from package_entries_clock[of dflt tt rf ty vers pkg n tt' n'] pe pe'
  have same: "map without_mtime new = map without_mtime new'" "r = r'" by simp_all
  show ?case
  proof (cases r)
    case None
    with same pe pe' have
      "group_entries dflt tt rf ty vers (pkg # pkgs) n =
         (new @ fst (group_entries dflt tt rf ty vers pkgs (n + length new)),
          snd (group_entries dflt tt rf ty vers pkgs (n + length new)))"
      "group_entries dflt tt' rf ty vers (pkg # pkgs) n' =
         (new' @ fst (group_entries dflt tt' rf ty vers pkgs (n' + length new')),
          snd (group_entries dflt tt' rf ty vers pkgs (n' + length new')))"
      by (simp_all add: group_entries_Cons_ok del: group_entries.simps)
    with same Cons.IH[of "n + length new" "n' + length new'"] show ?thesis by simp
  next
    case (Some err)
    from pe Some have p1: "package_entries dflt tt rf ty vers pkg n = (new, Some err)" by simp
    from pe' same Some have p2: "package_entries dflt tt' rf ty vers pkg n' = (new', Some err)" by simp
    show ?thesis
      unfolding group_entries_Cons_fail[OF p1] group_entries_Cons_fail[OF p2] using same by simp
  qed
qed

lemma example_encoded_desc:
  "encoded (example_desc_text \<lparr>desc_name = ''foo''\<rparr>) =
     Inr [37, 78, 65, 77, 69, 37, 10, 102, 111, 111, 10, 195, 169, 226, 130, 172]"
  by (simp add: encoded_def example_desc_text_def utf8_char_def newline_def)

lemma example_encoded_files:
  "encoded (example_files_text \<lparr>files = [''usr/'']\<rparr>) =
     Inr [37, 70, 73, 76, 69, 83, 37, 10, 117, 115, 114, 47]"
  by (simp add: encoded_def example_files_text_def utf8_char_def newline_def)

lemma example_renders: "\<forall>pkg\<in>set (packages example_model). renders example_repodbfile db_type pkg"
  by (simp add: example_model_def renders_def example_repodbfile_def example_encoded_desc
      example_encoded_files)

lemma example_entries_default:
  "group_entries example_defaults tt example_repodbfile RepoDbType_DEFAULT
     (version example_model) (packages example_model) n =
   ([dir_entry example_defaults (tt n) ''foo-1.0-1'',
     file_entry example_defaults (tt (n + 1)) ''foo-1.0-1/desc''
       [37, 78, 65, 77, 69, 37, 10, 102, 111, 111, 10, 195, 169, 226, 130, 172]], None)"
  by (simp add: example_model_def package_entries_def example_repodbfile_def example_encoded_desc)

lemma example_entries_files:
  "group_entries example_defaults tt example_repodbfile RepoDbType_FILES
     (version example_model) (packages example_model) n =
   ([dir_entry example_defaults (tt n) ''foo-1.0-1'',
     file_entry example_defaults (tt (n + 1)) ''foo-1.0-1/desc''
       [37, 78, 65, 77, 69, 37, 10, 102, 111, 111, 10, 195, 169, 226, 130, 172],
     file_entry example_defaults (tt (n + 2)) ''foo-1.0-1/files''
       [37, 70, 73, 76, 69, 83, 37, 10, 117, 115, 114, 47]], None)"
  by (simp add: example_model_def package_entries_def example_repodbfile_def example_encoded_desc
      example_encoded_files)

lemma example_run_default:
  "stream_package_base_to_db example_defaults tt example_model example_repodbfile
     RepoDbType_DEFAULT empty_world =
   (None,
    \<lparr>db = [dir_entry example_defaults (tt 0) ''foo-1.0-1'',
            file_entry example_defaults (tt 1) ''foo-1.0-1/desc''
              [37, 78, 65, 77, 69, 37, 10, 102, 111, 111, 10, 195, 169, 226, 130, 172]],
      readings = 2\<rparr>)"
  unfolding writer_eq example_entries_default by (simp add: empty_world_def)

lemma example_run_files:
  "stream_package_base_to_db example_defaults tt example_model example_repodbfile
     RepoDbType_FILES empty_world =
   (None,
    \<lparr>db = [dir_entry example_defaults (tt 0) ''foo-1.0-1'',
            file_entry example_defaults (tt 1) ''foo-1.0-1/desc''
              [37, 78, 65, 77, 69, 37, 10, 102, 111, 111, 10, 195, 169, 226, 130, 172],
            file_entry example_defaults (tt 2) ''foo-1.0-1/files''
              [37, 70, 73, 76, 69, 83, 37, 10, 117, 115, 114, 47]],
      readings = 3\<rparr>)"
  unfolding writer_eq example_entries_files by (simp add: empty_world_def numeral_2_eq_2)

lemma emitted_empty_world: "emitted empty_world w = db w"
  by (simp add: emitted_def empty_world_def)

lemma package_entries_names_prefix:
  "prefix (map name_and_type (fst (package_entries dflt tt rf ty vers pkg n)))
     (spec_package_members vers ty pkg)"
  by (cases rule: package_entries_cases[where dflt=dflt and tt=tt and rf=rf and ty=ty and vers=vers and pkg=pkg and n=n])
     (simp_all add: spec_package_members_def Let_def)

lemma group_entries_names_prefix:
  "prefix (map name_and_type (fst (group_entries dflt tt rf ty vers pkgs n)))
     (concat (map (spec_package_members vers ty) pkgs))"
proof (induction pkgs arbitrary: n)
  case Nil
  show ?case by simp
next
  case (Cons pkg pkgs)
  obtain new r where pe: "package_entries dflt tt rf ty vers pkg n = (new, r)"
    by (cases "package_entries dflt tt rf ty vers pkg n")
  show ?case
  proof (cases r)
    case None
    with pe have p: "package_entries dflt tt rf ty vers pkg n = (new, None)" by simp
    then have "renders rf ty pkg"
      using package_entries_renders[of dflt tt rf ty vers pkg n] by simp
    from package_entries_names[OF this, of dflt tt vers n] p
    have "map name_and_type new = spec_package_members vers ty pkg" by simp
    with Cons.IH[of "n + length new"] show ?thesis
      unfolding group_entries_Cons_ok[OF p] by simp
  next
    case (Some err)
    with pe have p: "package_entries dflt tt rf ty vers pkg n = (new, Some err)" by simp
    from package_entries_names_prefix[of dflt tt rf ty vers pkg n] p
    have "prefix (map name_and_type new) (spec_package_members vers ty pkg)" by simp
    then show ?thesis
      unfolding group_entries_Cons_fail[OF p] by (simp add: prefix_prefix)
  qed
qed

text \<open>
  Claim C2. What the writer adds to the archive is, package by package in the order of
  the group, the directory entry \<open><package-name>-<version>\<close> with the version of the
  group, then the desc member, then the files member exactly when the database type is
  \<open>FILES\<close>: always a prefix of that list, and the whole list exactly when no exception
  is raised, which is the case exactly when every text renders and encodes. The witness
  is the group with the one package \<open>foo\<close> at version \<open>1.0-1\<close>, written to a
  desc-only database: two members, \<open>foo-1.0-1/\<close> (a directory) and \<open>foo-1.0-1/desc\<close>
  (a file).
\<close>

theorem writer_members_per_package:
  "let result = stream_package_base_to_db dflt time_time model repodbfile db_type w;
       new = emitted w (snd result);
       members = concat (map (spec_package_members (version model) db_type) (packages model))
   in db (snd result) = db w @ new
    \<and> prefix (map name_and_type new) members
    \<and> (fst result = None \<longleftrightarrow> (\<forall>pkg\<in>set (packages model). renders repodbfile db_type pkg))
    \<and> ((\<forall>pkg\<in>set (packages model). renders repodbfile db_type pkg) \<longrightarrow>
          map name_and_type new = members)"
proof -
  let ?g = "group_entries dflt time_time repodbfile db_type (version model) (packages model) (readings w)"
  have r: "fst (stream_package_base_to_db dflt time_time model repodbfile db_type w) = snd ?g"
    and d: "db (snd (stream_package_base_to_db dflt time_time model repodbfile db_type w)) = db w @ fst ?g"
    by (simp_all add: writer_eq)
  have "prefix (map name_and_type (fst ?g))
      (concat (map (spec_package_members (version model) db_type) (packages model)))"
    by (rule group_entries_names_prefix)
  moreover have "snd ?g = None \<longleftrightarrow> (\<forall>pkg\<in>set (packages model). renders repodbfile db_type pkg)"
    by (rule group_entries_renders)
  moreover have "map name_and_type (fst ?g)
      = concat (map (spec_package_members (version model) db_type) (packages model))"
    if "\<forall>pkg\<in>set (packages model). renders repodbfile db_type pkg"
    using that by (rule group_entries_names)
  ultimately show ?thesis
    unfolding Let_def emitted_eq r d by blast
qed

theorem writer_members_per_package_witness:
  "packages example_model = [(\<lparr>desc_name = ''foo''\<rparr>, \<lparr>files = [''usr/'']\<rparr>)]
   \<and> renders example_repodbfile RepoDbType_DEFAULT (\<lparr>desc_name = ''foo''\<rparr>, \<lparr>files = [''usr/'']\<rparr>)
   \<and> fst (stream_package_base_to_db example_defaults (clock_from 0) example_model
            example_repodbfile RepoDbType_DEFAULT empty_world) = None
   \<and> map (\<lambda>e. (header_name (fst e), ti_type (fst e)))
        (db (snd (stream_package_base_to_db example_defaults (clock_from 0) example_model
            example_repodbfile RepoDbType_DEFAULT empty_world)))
      = [(''foo-1.0-1/'', DIRTYPE), (''foo-1.0-1/desc'', REGTYPE)]"
proof -
  have p: "packages example_model = [(\<lparr>desc_name = ''foo''\<rparr>, \<lparr>files = [''usr/'']\<rparr>)]"
    by (simp add: example_model_def)
  have h: "renders example_repodbfile RepoDbType_DEFAULT (\<lparr>desc_name = ''foo''\<rparr>, \<lparr>files = [''usr/'']\<rparr>)"
    using example_renders [of RepoDbType_DEFAULT] by (simp add: p)
  from writer_members_per_package [of example_defaults "clock_from 0" example_model
      example_repodbfile RepoDbType_DEFAULT empty_world] h p
  show ?thesis
    unfolding example_run_default
    by (simp add: header_name_def dir_entry_def file_entry_def suffix_to_prefix)
qed

text \<open>
  Claim C6. Every file entry that the writer adds is the desc member of a package of the
  group, or in a files database its files member, and the size in its header is the
  number of bytes of the UTF-8 encoding of the rendered text, which are the bytes written
  with it. When the writer returns without an exception, every package of the group has
  such a desc member, and in a files database such a files member.
\<close>

theorem member_size_is_encoded_length:
  "let result = stream_package_base_to_db dflt time_time model repodbfile db_type w;
       new = emitted w (snd result)
   in (\<forall>e\<in>set new. ti_type (fst e) = REGTYPE \<longrightarrow>
         (\<exists>pkg\<in>set (packages model). member_of_package repodbfile db_type (version model) e pkg))
    \<and> (fst result = None \<longrightarrow>
         (\<forall>pkg\<in>set (packages model).
            (\<exists>bytes. encoded (render_desc_template repodbfile (fst pkg)) = Inr bytes
               \<and> (\<exists>e\<in>set new.
                     sized_member e (desc_name (fst pkg) @ ''-'' @ version model @ ''/desc'') bytes))
          \<and> (db_type = RepoDbType_FILES \<longrightarrow>
               (\<exists>bytes. encoded (render_files_template repodbfile (snd pkg)) = Inr bytes
                  \<and> (\<exists>e\<in>set new.
                        sized_member e (desc_name (fst pkg) @ ''-'' @ version model @ ''/files'') bytes)))))"
proof -
  let ?g = "group_entries dflt time_time repodbfile db_type (version model) (packages model) (readings w)"
  have a: "\<forall>e\<in>set (fst ?g). ti_type (fst e) = REGTYPE \<longrightarrow>
         (\<exists>pkg\<in>set (packages model). member_of_package repodbfile db_type (version model) e pkg)"
    using group_entries_sized by blast
  have b: "(\<exists>bytes. encoded (render_desc_template repodbfile (fst pkg)) = Inr bytes
               \<and> (\<exists>e\<in>set (fst ?g).
                     sized_member e (desc_name (fst pkg) @ ''-'' @ version model @ ''/desc'') bytes))
          \<and> (db_type = RepoDbType_FILES \<longrightarrow>
               (\<exists>bytes. encoded (render_files_template repodbfile (snd pkg)) = Inr bytes
                  \<and> (\<exists>e\<in>set (fst ?g).
                        sized_member e (desc_name (fst pkg) @ ''-'' @ version model @ ''/files'') bytes)))"
    if ok: "snd ?g = None" and pkg: "pkg \<in> set (packages model)" for pkg
  proof -
    from ok have all: "\<forall>p\<in>set (packages model). renders repodbfile db_type p"
      by (simp add: group_entries_renders)
    with pkg have r: "renders repodbfile db_type pkg" by simp
    from group_entries_contains[OF all pkg, of dflt time_time "version model" "readings w"]
    obtain k where k: "set (fst (package_entries dflt time_time repodbfile db_type (version model) pkg k))
         \<subseteq> set (fst ?g)" ..
    from package_entries_has_desc[OF r, of dflt time_time "version model" k] k
    have d: "\<exists>bytes. encoded (render_desc_template repodbfile (fst pkg)) = Inr bytes
               \<and> (\<exists>e\<in>set (fst ?g).
                     sized_member e (desc_name (fst pkg) @ ''-'' @ version model @ ''/desc'') bytes)"
      by blast
    have f: "\<exists>bytes. encoded (render_files_template repodbfile (snd pkg)) = Inr bytes
                  \<and> (\<exists>e\<in>set (fst ?g).
                        sized_member e (desc_name (fst pkg) @ ''-'' @ version model @ ''/files'') bytes)"
      if "db_type = RepoDbType_FILES"
      using package_entries_has_files[OF r that, of dflt time_time "version model" k] k by blast
    from d f show ?thesis by blast
  qed
  have r: "fst (stream_package_base_to_db dflt time_time model repodbfile db_type w) = snd ?g"
    by (simp add: writer_eq)
  show ?thesis
    unfolding Let_def emitted_eq r using a b by blast
qed

theorem member_size_is_encoded_length_witness:
  "let result = stream_package_base_to_db example_defaults (clock_from 0) example_model
         example_repodbfile RepoDbType_FILES empty_world;
       new = emitted empty_world (snd result)
   in fst result = None
    \<and> (\<lparr>desc_name = ''foo''\<rparr>, \<lparr>files = [''usr/'']\<rparr>) \<in> set (packages example_model)
    \<and> ti_type (fst (new ! 1)) = REGTYPE \<and> ti_name (fst (new ! 1)) = ''foo-1.0-1/desc''
    \<and> encoded (example_desc_text \<lparr>desc_name = ''foo''\<rparr>) = Inr (the (snd (new ! 1)))
    \<and> ti_size (fst (new ! 1)) = 16 \<and> length (the (snd (new ! 1))) = 16
    \<and> ti_type (fst (new ! 2)) = REGTYPE \<and> ti_name (fst (new ! 2)) = ''foo-1.0-1/files''
    \<and> encoded (example_files_text \<lparr>files = [''usr/'']\<rparr>) = Inr (the (snd (new ! 2)))
    \<and> ti_size (fst (new ! 2)) = 12 \<and> length (the (snd (new ! 2))) = 12"
proof -
  have p: "(\<lparr>desc_name = ''foo''\<rparr>, \<lparr>files = [''usr/'']\<rparr>) \<in> set (packages example_model)"
    by (simp add: example_model_def)
  from member_size_is_encoded_length [of example_defaults "clock_from 0" example_model
      example_repodbfile RepoDbType_FILES empty_world] p
  show ?thesis
    unfolding example_run_files Let_def emitted_empty_world
    by (simp add: example_encoded_desc example_encoded_files file_entry_def)
qed

text \<open>
  Claim C7. Every entry that the writer adds has the user name \<open>DB_USER\<close>, the group
  name \<open>DB_GROUP\<close>, and the mode \<open>DB_DIR_MODE\<close> when it is a directory and
  \<open>DB_FILE_MODE\<close> when it is a file; these are the constants of \<open>defaults\<close>, and when
  the two modes differ, directories and files differ in mode. The modification time of the
  \<open>k\<close>-th entry added is the clock's reading made for it, the \<open>k\<close>-th of the run.
\<close>

theorem writer_metadata_from_constants:
  "let new = emitted w (snd (stream_package_base_to_db dflt time_time model repodbfile db_type w))
   in (\<forall>e\<in>set new.
         ti_uname (fst e) = DB_USER dflt \<and> ti_gname (fst e) = DB_GROUP dflt
         \<and> ti_mode (fst e) = (if ti_type (fst e) = DIRTYPE then DB_DIR_MODE dflt else DB_FILE_MODE dflt))
    \<and> map (\<lambda>e. ti_mtime (fst e)) new = map time_time [readings w ..< readings w + length new]
    \<and> (DB_DIR_MODE dflt \<noteq> DB_FILE_MODE dflt \<longrightarrow>
         (\<forall>d\<in>set new. \<forall>f\<in>set new.
            ti_type (fst d) = DIRTYPE \<and> ti_type (fst f) = REGTYPE \<longrightarrow> ti_mode (fst d) \<noteq> ti_mode (fst f)))"
proof -
  let ?g = "group_entries dflt time_time repodbfile db_type (version model) (packages model) (readings w)"
  have m: "\<forall>e\<in>set (fst ?g). meta_ok dflt e"
    using group_entries_meta by blast
  then have a: "\<forall>e\<in>set (fst ?g).
         ti_uname (fst e) = DB_USER dflt \<and> ti_gname (fst e) = DB_GROUP dflt
         \<and> ti_mode (fst e) = (if ti_type (fst e) = DIRTYPE then DB_DIR_MODE dflt else DB_FILE_MODE dflt)"
    by (simp add: meta_ok_def)
  have b: "map (\<lambda>e. ti_mtime (fst e)) (fst ?g) = map time_time [readings w ..< readings w + length (fst ?g)]"
    by (rule group_entries_mtime)
  have c: "ti_mode (fst d) \<noteq> ti_mode (fst f)"
    if "DB_DIR_MODE dflt \<noteq> DB_FILE_MODE dflt" "d \<in> set (fst ?g)" "f \<in> set (fst ?g)"
      "ti_type (fst d) = DIRTYPE" "ti_type (fst f) = REGTYPE" for d f
    using that a by simp
  from a b c show ?thesis
    unfolding Let_def emitted_eq by blast
qed

theorem writer_metadata_from_constants_witness:
  "let new = emitted empty_world (snd (stream_package_base_to_db example_defaults
         (clock_from 1700000000) example_model example_repodbfile RepoDbType_FILES empty_world))
   in DB_DIR_MODE example_defaults \<noteq> DB_FILE_MODE example_defaults
    \<and> map (\<lambda>e. (ti_type (fst e), ti_uname (fst e), ti_gname (fst e), ti_mode (fst e), ti_mtime (fst e))) new
        = [(DIRTYPE, ''root'', ''root'', 493, 1700000000),
           (REGTYPE, ''root'', ''root'', 420, 1700000001),
           (REGTYPE, ''root'', ''root'', 420, 1700000002)]"
  using writer_metadata_from_constants [of empty_world example_defaults "clock_from 1700000000"
      example_model example_repodbfile RepoDbType_FILES]
  unfolding example_run_files Let_def emitted_empty_world
  by (simp add: file_entry_def dir_entry_def example_defaults_def clock_from_def)

text \<open>
  Claim C4 as stated fails: two runs on the same group, a minute apart, write archives that
  differ, since every header records the time of its writing.
\<close>

theorem writer_not_byte_stable_counterexample:
  "db (snd (stream_package_base_to_db example_defaults (clock_from 1700000000) example_model
         example_repodbfile RepoDbType_DEFAULT empty_world))
   \<noteq> db (snd (stream_package_base_to_db example_defaults (clock_from 1700000060) example_model
         example_repodbfile RepoDbType_DEFAULT empty_world))"
  unfolding example_run_default
  by (simp add: dir_entry_def file_entry_def clock_from_def)

text \<open>
  Claim C4, amended. For a fixed group, database type and archive so far, two runs of the
  writer at any two times raise the same exception or none, and write the same entries in
  the same order, equal in everything but the modification time: name, type, size, user,
  group, mode and bytes.
\<close>

theorem writer_deterministic_up_to_mtime:
  assumes "db w = db w'"
  shows "fst (stream_package_base_to_db dflt time_time model repodbfile db_type w)
           = fst (stream_package_base_to_db dflt time_time' model repodbfile db_type w')
       \<and> map without_mtime (db (snd (stream_package_base_to_db dflt time_time model repodbfile db_type w)))
           = map without_mtime (db (snd (stream_package_base_to_db dflt time_time' model repodbfile db_type w')))"
  using assms
    group_entries_clock[of dflt time_time repodbfile db_type "version model" "packages model"
      "readings w" time_time' "readings w'"]
  by (simp add: writer_eq)

theorem writer_deterministic_up_to_mtime_witness:
  "db empty_world = db empty_world
   \<and> map without_mtime (db (snd (stream_package_base_to_db example_defaults (clock_from 1700000000)
         example_model example_repodbfile RepoDbType_DEFAULT empty_world)))
     = map without_mtime (db (snd (stream_package_base_to_db example_defaults (clock_from 1700000060)
         example_model example_repodbfile RepoDbType_DEFAULT empty_world)))"
  using writer_deterministic_up_to_mtime [of empty_world empty_world example_defaults
      "clock_from 1700000000" example_model example_repodbfile RepoDbType_DEFAULT
      "clock_from 1700000060"]
  by simp


end
